theory Spec2Isabelle
  imports Main "HOL-Library.Word" "HOL-Library.Sublist"
begin

section \<open>Shared vocabulary: errors and HTTP replies\<close>

text \<open>
  Every Go error value that the modelled functions can hand back. \<open>Transport\<close> is whatever
  error the HTTP client reported, \<open>Wrap\<close> is \<^verbatim>\<open>fmt.Errorf("...: %w", err)\<close>.
\<close>

datatype error =
    Transport string
  | ErrEmptyResponse
  | UnexpectedStatus int
  | DecodeFailure
  | Wrap string error

text \<open>
  What one call of \<^verbatim>\<open>c.Get\<close> / \<^verbatim>\<open>c.GetV2\<close> gives back, the pair \<^verbatim>\<open>(res, err)\<close>:
  \<open>Failed\<close> when \<^verbatim>\<open>err != nil\<close>, \<open>NoResponse\<close> when both are nil, otherwise a response with
  its status code and what the JSON decoder makes of the body (\<open>None\<close> when decoding fails).
\<close>

datatype 'a reply =
    Failed string
  | NoResponse
  | Response int "'a option"

text \<open>Go's \<^verbatim>\<open>int\<close> and \<^verbatim>\<open>uint\<close> on a 64-bit platform.\<close>

type_synonym go_int = "64 word"
type_synonym go_uint = "64 word"

definition StatusOK :: int where
  "StatusOK = 200"


section \<open>pkg/jira/search.go\<close>

subsection \<open>isJQLBounded\<close>

definition boundingTerms :: "string list" where
  "boundingTerms =
    [''created >='', ''created >'', ''created ='', ''created <='', ''created <'',
     ''updated >='', ''updated >'', ''updated ='', ''updated <='', ''updated <'',
     ''project ='', ''project in'', ''project IN'',
     ''id ='', ''id in'', ''id IN'',
     ''key ='', ''key in'', ''key IN'',
     ''issuekey ='', ''issuekey in'', ''issuekey IN'']"

text \<open>
  \<^verbatim>\<open>strings.ToLower\<close>, of Go's standard library, on the bytes of a query. A byte below 0x80
  stands for itself in UTF-8 and is never part of a longer sequence, valid or not: Go
  lowers it on its own, the letters A to Z going to a to z. The bytes from 0x80 up come in
  runs between such bytes; Go decodes a run into runes, lowers each rune with the tables of
  package \<^verbatim>\<open>unicode\<close> and encodes the result: the Kelvin sign U+212A becomes \<^verbatim>\<open>k\<close>, the
  dotted capital I U+0130 becomes \<^verbatim>\<open>i\<close>, a byte that is no UTF-8 becomes U+FFFD. Neither
  the decoder nor the tables are among the sources at hand: what Go makes of one run is the
  parameter \<open>lowerRun\<close>.
\<close>

type_synonym unicode_lower = "string \<Rightarrow> string"

definition isASCII :: "char \<Rightarrow> bool" where
  "isASCII c = (\<not> digit7 c)"

definition toLowerChar :: "char \<Rightarrow> char" where
  "toLowerChar c =
    (case map_of (zip ''ABCDEFGHIJKLMNOPQRSTUVWXYZ'' ''abcdefghijklmnopqrstuvwxyz'') c of
       Some l \<Rightarrow> l
     | None \<Rightarrow> c)"

text \<open>The run gathered so far, lowered; nothing when there is none.\<close>

definition flush :: "unicode_lower \<Rightarrow> string \<Rightarrow> string" where
  "flush lowerRun run = (if run = [] then [] else lowerRun run)"

fun lowerFrom :: "unicode_lower \<Rightarrow> string \<Rightarrow> string \<Rightarrow> string" where
  "lowerFrom lowerRun run [] = flush lowerRun run"
| "lowerFrom lowerRun run (c # s) =
    (if isASCII c then flush lowerRun run @ toLowerChar c # lowerFrom lowerRun [] s
     else lowerFrom lowerRun (run @ [c]) s)"

definition ToLower :: "unicode_lower \<Rightarrow> string \<Rightarrow> string" where
  "ToLower lowerRun s = lowerFrom lowerRun [] s"

text \<open>\<^verbatim>\<open>strings.Contains(s, substr)\<close>: \<open>substr\<close> starts at some position of \<open>s\<close>.\<close>

fun Contains :: "string \<Rightarrow> string \<Rightarrow> bool" where
  "Contains [] substr = (substr = [])"
| "Contains (c # s) substr = (prefix substr (c # s) \<or> Contains s substr)"

text \<open>The \<^verbatim>\<open>for _, term := range boundingTerms\<close> loop, returning at the first hit.\<close>

fun anyTerm :: "unicode_lower \<Rightarrow> string \<Rightarrow> string list \<Rightarrow> bool" where
  "anyTerm lowerRun jqlLower [] = False"
| "anyTerm lowerRun jqlLower (term # terms) =
    (if Contains jqlLower (ToLower lowerRun term) then True
     else anyTerm lowerRun jqlLower terms)"

definition isJQLBounded :: "unicode_lower \<Rightarrow> string \<Rightarrow> bool" where
  "isJQLBounded lowerRun jql = anyTerm lowerRun (ToLower lowerRun jql) boundingTerms"

subsection \<open>search\<close>

record 'i SearchResult =
  StartAt :: go_int
  MaxResults :: go_int
  Total :: go_int
  Issues :: "'i list"
  NextPageToken :: string
  IsLast :: bool

datatype api_version = apiVersion3 | apiVersion2

text \<open>
  The two request paths \<open>search\<close> formats:
  \<^verbatim>\<open>/search/jql?jql=%s&startAt=%d&maxResults=%d&fields=*all\<close> and
  \<^verbatim>\<open>/search?jql=%s&startAt=%d&maxResults=%d\<close>.
\<close>

datatype search_path =
    SearchJQLPath string go_uint go_uint
  | SearchPath string go_uint go_uint

record 'i Client =
  Get :: "search_path \<Rightarrow> 'i SearchResult reply"
  GetV2 :: "search_path \<Rightarrow> 'i SearchResult reply"

text \<open>Lines 43 to 50: the default bound put in front of a query that has none.\<close>

definition boundJQL :: "unicode_lower \<Rightarrow> string \<Rightarrow> string" where
  "boundJQL lowerRun jql =
    (if \<not> isJQLBounded lowerRun jql then
       (if jql = '''' then ''created >= -90d''
        else ''created >= -90d AND ('' @ jql @ '')'')
     else jql)"

text \<open>Lines 81 to 90: the total of a page of the new endpoint that came without one.\<close>

definition fixTotal :: "api_version \<Rightarrow> go_uint \<Rightarrow> 'i SearchResult \<Rightarrow> 'i SearchResult" where
  "fixTotal ver from out =
    (if ver = apiVersion3 \<and> Total out = 0 \<and> 0 < length (Issues out) then
       (if IsLast out then out\<lparr>Total := from + word_of_nat (length (Issues out))\<rparr>
        else out\<lparr>Total := 10000\<rparr>)
     else out)"

definition search ::
  "unicode_lower \<Rightarrow> 'i Client \<Rightarrow> string \<Rightarrow> go_uint \<Rightarrow> go_uint \<Rightarrow> api_version
     \<Rightarrow> error + 'i SearchResult" where
  "search lowerRun c jql from limit ver =
    (let res = (if ver = apiVersion3
                then Get c (SearchJQLPath (boundJQL lowerRun jql) from limit)
                else GetV2 c (SearchPath jql from limit))
     in case res of
          Failed e \<Rightarrow> Inl (Transport e)
        | NoResponse \<Rightarrow> Inl ErrEmptyResponse
        | Response code body \<Rightarrow>
            if code \<noteq> StatusOK then Inl (UnexpectedStatus code)
            else (case body of
                    None \<Rightarrow> Inl DecodeFailure
                  | Some out \<Rightarrow> Inr (fixTotal ver from out)))"

definition Search ::
  "unicode_lower \<Rightarrow> 'i Client \<Rightarrow> string \<Rightarrow> go_uint \<Rightarrow> go_uint \<Rightarrow> error + 'i SearchResult" where
  "Search lowerRun c jql from limit = search lowerRun c jql from limit apiVersion3"

definition SearchV2 ::
  "unicode_lower \<Rightarrow> 'i Client \<Rightarrow> string \<Rightarrow> go_uint \<Rightarrow> go_uint \<Rightarrow> error + 'i SearchResult" where
  "SearchV2 lowerRun c jql from limit = search lowerRun c jql from limit apiVersion2"


section \<open>lib: status history of an issue\<close>

subsection \<open>Data\<close>

text \<open>
  An instant (\<^verbatim>\<open>time.Time\<close>) is an integer, the nanoseconds elapsed since Go's zero
  \<^verbatim>\<open>Time\<close> (January 1 of year 1, UTC), so that the zero \<^verbatim>\<open>Time\<close> is 0 and \<^verbatim>\<open>IsZero\<close> is
  \<open>t = 0\<close>. A \<^verbatim>\<open>time.Duration\<close> is a count of nanoseconds in 64 bits, read as the integer
  it stands for, between \<open>minDuration\<close> and \<open>maxDuration\<close>.
\<close>

type_synonym instant = int
type_synonym duration = int

record StatusChange =
  Timestamp :: instant
  Author :: string
  FromStatus :: string
  ToStatus :: string
  AuthorEmail :: string
  AuthorDisplayName :: string

record HistoryAuthor =
  Name :: string
  EmailAddress :: string
  DisplayName :: string

record HistoryItem =
  Field :: string
  FieldType :: string
  From :: string
  FromString :: string
  To :: string
  ToString :: string

record IssueHistory =
  ID :: string
  Author :: "HistoryAuthor option"
  Created :: string
  Items :: "HistoryItem list"

record IssueChangelog =
  StartAt :: go_int
  MaxResults :: go_int
  Total :: go_int
  Histories :: "IssueHistory list"

text \<open>
  Of \<^verbatim>\<open>jira.IssueFields\<close> (declared outside the files at hand) the code reads
  \<^verbatim>\<open>Fields.Created\<close> and \<^verbatim>\<open>Fields.Reporter.Name\<close>.
\<close>

record Reporter =
  Name :: string

record IssueFields =
  Created :: string
  Reporter :: Reporter

record IssueWithChangelog =
  Key :: string
  Fields :: IssueFields
  Changelog :: "IssueChangelog option"

text \<open>
  Go's \<^verbatim>\<open>time\<close> package as the code uses it: the two layouts given to \<^verbatim>\<open>time.Parse\<close>
  (\<open>None\<close> when it returns an error) and the reading of \<^verbatim>\<open>time.Now()\<close>, taken to be the
  same at every call within one run.
\<close>

record timelib =
  parseRFC3339 :: "string \<Rightarrow> instant option"
  parseMillis :: "string \<Rightarrow> instant option"
  now :: instant

datatype installation = InstallationTypeLocal | InstallationTypeCloud

text \<open>
  The HTTP side of a \<^verbatim>\<open>JiraClient\<close>: the reply of \<^verbatim>\<open>c.client.Get\<close> and of
  \<^verbatim>\<open>c.client.GetV2\<close> to \<^verbatim>\<open>/issue/<key>?expand=changelog\<close>, and their replies to
  \<^verbatim>\<open>/issue/<key>/changelog?startAt=<n>\<close>. The latter take, before the key and the
  offset, the number of changelog requests already made in the run, so that a server may
  answer the same path differently over time.
\<close>

record JiraClient =
  installationType :: installation
  GetIssue :: "string \<Rightarrow> IssueWithChangelog reply"
  GetIssueV2 :: "string \<Rightarrow> IssueWithChangelog reply"
  GetChangelog :: "nat \<Rightarrow> string \<Rightarrow> go_int \<Rightarrow> IssueChangelog reply"
  GetChangelogV2 :: "nat \<Rightarrow> string \<Rightarrow> go_int \<Rightarrow> IssueChangelog reply"

subsection \<open>Building one StatusChange\<close>

text \<open>Lines 945 to 956 and 1086 to 1096: the entry of one status item of a history.\<close>

definition newChange :: "instant \<Rightarrow> IssueHistory \<Rightarrow> HistoryItem \<Rightarrow> StatusChange" where
  "newChange timestamp history item =
    (let change = \<lparr>Timestamp = timestamp, StatusChange.Author = '''', FromStatus = FromString item,
                    ToStatus = ToString item, AuthorEmail = '''', AuthorDisplayName = ''''\<rparr>
     in case IssueHistory.Author history of
          None \<Rightarrow> change
        | Some a \<Rightarrow> change\<lparr>StatusChange.Author := HistoryAuthor.Name a,
                            AuthorEmail := EmailAddress a,
                            AuthorDisplayName := DisplayName a\<rparr>)"

text \<open>Lines 935 to 943: the timestamp of a history on the embedded page.\<close>

definition parseTimestamp :: "timelib \<Rightarrow> string \<Rightarrow> instant" where
  "parseTimestamp tm created =
    (case parseRFC3339 tm created of
       Some timestamp \<Rightarrow> timestamp
     | None \<Rightarrow>
         (case parseMillis tm created of
            Some timestamp \<Rightarrow> timestamp
          | None \<Rightarrow> now tm))"

text \<open>
  Lines 1081 to 1084: the timestamp of a history on a continuation page. The errors of
  \<^verbatim>\<open>time.Parse\<close> are dropped; a failed parse leaves the zero \<^verbatim>\<open>Time\<close>.
\<close>

definition parseOrZero :: "(string \<Rightarrow> instant option) \<Rightarrow> string \<Rightarrow> instant" where
  "parseOrZero parse s = (case parse s of Some t \<Rightarrow> t | None \<Rightarrow> 0)"

definition parseTimestampMore :: "timelib \<Rightarrow> string \<Rightarrow> instant" where
  "parseTimestampMore tm created =
    (let timestamp = parseOrZero (parseRFC3339 tm) created
     in if timestamp = 0 then parseOrZero (parseMillis tm) created else timestamp)"

text \<open>The nested \<^verbatim>\<open>range\<close> over histories and over their items, keeping the status items.\<close>

definition extractChanges ::
  "(string \<Rightarrow> instant) \<Rightarrow> IssueHistory list \<Rightarrow> StatusChange list" where
  "extractChanges parse histories =
    concat (map (\<lambda>history.
        map (newChange (parse (IssueHistory.Created history)) history)
            (filter (\<lambda>item. Field item = ''status'') (Items history)))
      histories)"

subsection \<open>getIssueWithChangelog\<close>

definition getIssueWithChangelog :: "JiraClient \<Rightarrow> string \<Rightarrow> error + IssueWithChangelog" where
  "getIssueWithChangelog c issueKey =
    (case (if installationType c = InstallationTypeLocal
           then GetIssueV2 c issueKey else GetIssue c issueKey) of
       Failed e \<Rightarrow> Inl (Transport e)
     | NoResponse \<Rightarrow> Inl ErrEmptyResponse
     | Response code body \<Rightarrow>
         if code \<noteq> StatusOK then Inl (UnexpectedStatus code)
         else (case body of
                 None \<Rightarrow> Inl (Wrap ''failed to decode issue with changelog'' DecodeFailure)
               | Some issue \<Rightarrow> Inr issue))"

subsection \<open>fetchAdditionalHistory\<close>

text \<open>
  The \<^verbatim>\<open>for { ... }\<close> loop. The first argument is the number of requests the loop may
  still send: \<open>None\<close> says that it has not left the loop within that many. A result is the
  pair Go returns, the changes gathered and the error if any.
\<close>

fun fetchLoop ::
  "nat \<Rightarrow> JiraClient \<Rightarrow> timelib \<Rightarrow> string \<Rightarrow> nat \<Rightarrow> go_int \<Rightarrow> StatusChange list
     \<Rightarrow> (StatusChange list \<times> error option) option" where
  "fetchLoop 0 c tm issueKey n currentStart allChanges = None"
| "fetchLoop (Suc fuel) c tm issueKey n currentStart allChanges =
    (case (if installationType c = InstallationTypeLocal
           then GetChangelogV2 c n issueKey currentStart
           else GetChangelog c n issueKey currentStart) of
       Failed e \<Rightarrow> Some (allChanges, Some (Transport e))
     | NoResponse \<Rightarrow> Some (allChanges, Some ErrEmptyResponse)
     | Response code body \<Rightarrow>
         if code \<noteq> StatusOK then Some (allChanges, Some (UnexpectedStatus code))
         else (case body of
                 None \<Rightarrow> Some (allChanges, Some DecodeFailure)
               | Some changelog \<Rightarrow>
                   (let allChanges' = allChanges
                          @ extractChanges (parseTimestampMore tm) (Histories changelog);
                        next = currentStart + word_of_nat (length (Histories changelog))
                    in if IssueChangelog.Total changelog \<le>s next
                       then Some (allChanges', None)
                       else fetchLoop fuel c tm issueKey (Suc n) next allChanges')))"

definition fetchAdditionalHistory ::
  "nat \<Rightarrow> JiraClient \<Rightarrow> timelib \<Rightarrow> string \<Rightarrow> go_int
     \<Rightarrow> (StatusChange list \<times> error option) option" where
  "fetchAdditionalHistory fuel c tm issueKey startAt = fetchLoop fuel c tm issueKey 0 startAt []"

subsection \<open>GetIssueStatusChanges\<close>

text \<open>Lines 930 to 971: the changes of the embedded page, then those of the other pages.\<close>

definition gatherChanges ::
  "nat \<Rightarrow> JiraClient \<Rightarrow> timelib \<Rightarrow> string \<Rightarrow> IssueWithChangelog \<Rightarrow> StatusChange list option" where
  "gatherChanges fuel c tm issueKey issueWithHistory =
    (case Changelog issueWithHistory of
       None \<Rightarrow> Some []
     | Some cl \<Rightarrow>
         (let statusChanges = extractChanges (parseTimestamp tm) (Histories cl)
          in if IssueChangelog.StartAt cl + IssueChangelog.MaxResults cl <s IssueChangelog.Total cl
             then (case fetchAdditionalHistory fuel c tm issueKey (IssueChangelog.MaxResults cl) of
                     None \<Rightarrow> None
                   | Some (additionalChanges, err) \<Rightarrow>
                       Some (if err = None then statusChanges @ additionalChanges
                             else statusChanges))
             else Some statusChanges))"

text \<open>Lines 975 to 978: the creation time of the issue, in either layout.\<close>

definition parseCreated :: "timelib \<Rightarrow> string \<Rightarrow> instant option" where
  "parseCreated tm created =
    (case parseRFC3339 tm created of
       Some createdTime \<Rightarrow> Some createdTime
     | None \<Rightarrow> parseMillis tm created)"

text \<open>Lines 974 to 995: the entry for the status the issue was created in.\<close>

definition addInitialChange ::
  "timelib \<Rightarrow> IssueWithChangelog \<Rightarrow> StatusChange list \<Rightarrow> StatusChange list" where
  "addInitialChange tm issueWithHistory statusChanges =
    (if 0 < length statusChanges \<and> IssueFields.Created (Fields issueWithHistory) \<noteq> '''' then
       (case parseCreated tm (IssueFields.Created (Fields issueWithHistory)) of
          None \<Rightarrow> statusChanges
        | Some createdTime \<Rightarrow>
            (let earliestChange = statusChanges ! (length statusChanges - 1)
             in if FromStatus earliestChange \<noteq> '''' then
                  (let initialChange = \<lparr>Timestamp = createdTime, StatusChange.Author = '''',
                         FromStatus = '''',
                         ToStatus = FromStatus earliestChange, AuthorEmail = '''',
                         AuthorDisplayName = ''''\<rparr>;
                       initialChange =
                         (if Reporter.Name (Reporter (Fields issueWithHistory)) \<noteq> '''' then
                            initialChange\<lparr>StatusChange.Author := Reporter.Name (Reporter (Fields issueWithHistory)),
                                           AuthorDisplayName := Reporter.Name (Reporter (Fields issueWithHistory))\<rparr>
                          else initialChange)
                   in statusChanges @ [initialChange])
                else statusChanges))
     else statusChanges)"

text \<open>
  Lines 998 to 1001: the loop that swaps the entries \<open>i\<close> and \<open>len - 1 - i\<close> for every
  \<open>i\<close> below \<open>len / 2\<close>.
\<close>

function swapLoop :: "nat \<Rightarrow> 'a list \<Rightarrow> 'a list" where
  "swapLoop i statusChanges =
    (if i < length statusChanges div 2 then
       (let j = length statusChanges - 1 - i
        in swapLoop (Suc i) (statusChanges[i := statusChanges ! j, j := statusChanges ! i]))
     else statusChanges)"
  by pat_completeness auto
termination
  by (relation "measure (\<lambda>(i, statusChanges). length statusChanges div 2 - i)") auto

definition GetIssueStatusChanges ::
  "nat \<Rightarrow> JiraClient \<Rightarrow> timelib \<Rightarrow> string \<Rightarrow> (error + StatusChange list) option" where
  "GetIssueStatusChanges fuel c tm issueKey =
    (case getIssueWithChangelog c issueKey of
       Inl err \<Rightarrow> Some (Inl (Wrap ''failed to fetch issue with changelog'' err))
     | Inr issueWithHistory \<Rightarrow>
         (case gatherChanges fuel c tm issueKey issueWithHistory of
            None \<Rightarrow> None
          | Some statusChanges \<Rightarrow>
              Some (Inr (swapLoop 0 (addInitialChange tm issueWithHistory statusChanges)))))"


section \<open>examples/status-tracking: calculateStatusTime\<close>

text \<open>The ends of \<^verbatim>\<open>time.Duration\<close>, about 292 years either way.\<close>

definition minDuration :: duration where
  "minDuration = - (2 ^ 63)"

definition maxDuration :: duration where
  "maxDuration = 2 ^ 63 - 1"

text \<open>
  \<^verbatim>\<open>t.Sub(u)\<close>: the difference \<open>t - u\<close>, and the nearest end of \<^verbatim>\<open>time.Duration\<close> when the
  difference does not fit.
\<close>

definition Sub :: "instant \<Rightarrow> instant \<Rightarrow> duration" where
  "Sub t u =
    (if maxDuration < t - u then maxDuration
     else if t - u < minDuration then minDuration
     else t - u)"

text \<open>The sum of two durations as \<^verbatim>\<open>+=\<close> computes it: in 64 bits, wrapping around.\<close>

definition addDuration :: "duration \<Rightarrow> duration \<Rightarrow> duration" where
  "addDuration a b = (a + b + 2 ^ 63) mod 2 ^ 64 - 2 ^ 63"

text \<open>A missing key of a Go map reads as the zero value.\<close>

definition lookup0 :: "(string \<rightharpoonup> duration) \<Rightarrow> string \<Rightarrow> duration" where
  "lookup0 statusTime k = (case statusTime k of None \<Rightarrow> 0 | Some d \<Rightarrow> d)"

text \<open>Lines 326 to 331: the time spent in the status entered by \<open>changes[i]\<close>.\<close>

definition residency :: "instant \<Rightarrow> StatusChange list \<Rightarrow> nat \<Rightarrow> duration" where
  "residency nowT changes i =
    (if Suc i < length changes
     then Sub (Timestamp (changes ! (Suc i))) (Timestamp (changes ! i))
     else Sub nowT (Timestamp (changes ! i)))"

text \<open>Line 332: \<^verbatim>\<open>statusTime[change.ToStatus] += duration\<close>.\<close>

definition addResidency ::
  "instant \<Rightarrow> StatusChange list \<Rightarrow> nat \<Rightarrow> (string \<rightharpoonup> duration) \<Rightarrow> (string \<rightharpoonup> duration)" where
  "addResidency nowT changes i statusTime =
    statusTime(ToStatus (changes ! i) \<mapsto>
      addDuration (lookup0 statusTime (ToStatus (changes ! i))) (residency nowT changes i))"

definition calculateStatusTime :: "instant \<Rightarrow> StatusChange list \<Rightarrow> (string \<rightharpoonup> duration)" where
  "calculateStatusTime nowT changes =
    fold (addResidency nowT changes) [0..<length changes] Map.empty"

text \<open>
  The time between entry \<open>i\<close> and the next one, or \<open>now\<close> for the last entry, as a number
  of nanoseconds without bound; and the sum of the durations held by the map, one per
  status.
\<close>

definition elapsed :: "instant \<Rightarrow> StatusChange list \<Rightarrow> nat \<Rightarrow> int" where
  "elapsed nowT changes i =
    (if Suc i < length changes
     then Timestamp (changes ! (Suc i)) - Timestamp (changes ! i)
     else nowT - Timestamp (changes ! i))"

definition totalTime :: "(string \<rightharpoonup> duration) \<Rightarrow> duration" where
  "totalTime statusTime = (\<Sum>status \<in> dom statusTime. lookup0 statusTime status)"

text \<open>The reply the loop reads at its \<open>n\<close>-th request.\<close>

definition changelogReply :: "JiraClient \<Rightarrow> nat \<Rightarrow> string \<Rightarrow> go_int \<Rightarrow> IssueChangelog reply" where
  "changelogReply c n issueKey currentStart =
    (if installationType c = InstallationTypeLocal
     then GetChangelogV2 c n issueKey currentStart
     else GetChangelog c n issueKey currentStart)"

text \<open>
  A server whose pages declare the total \<open>T\<close> and carry \<open>p\<close> histories, the last one
  possibly fewer: every reply is an error, or a page of at most \<open>p\<close> histories that is
  full unless it reaches the total.
\<close>

definition fullPages :: "JiraClient \<Rightarrow> string \<Rightarrow> go_int \<Rightarrow> nat \<Rightarrow> bool" where
  "fullPages c issueKey T p \<longleftrightarrow>
    (\<forall>n s cl. changelogReply c n issueKey s = Response StatusOK (Some cl) \<longrightarrow>
       IssueChangelog.Total cl = T \<and> length (Histories cl) \<le> p
       \<and> (length (Histories cl) = p \<or> sint T \<le> sint s + int (length (Histories cl))))"






section \<open>Example inputs\<close>

text \<open>
  The UTF-8 bytes of the Kelvin sign U+212A and of the dotted capital I U+0130, and what
  Go's lowering makes of these two runs (\<^verbatim>\<open>k\<close> and \<^verbatim>\<open>i\<close>); the examples hold no other run.
\<close>

definition kelvinSign :: string where
  "kelvinSign = [CHR 0xE2, CHR 0x84, CHR 0xAA]"

definition dottedI :: string where
  "dottedI = [CHR 0xC4, CHR 0xB0]"

definition exampleRuns :: unicode_lower where
  "exampleRuns run = (if run = kelvinSign then ''k'' else if run = dottedI then ''i'' else run)"

text \<open>Pages of the new search endpoint, and clients that answer every request alike.\<close>

definition lastPage :: "string SearchResult" where
  "lastPage = \<lparr>SearchResult.StartAt = 50, SearchResult.MaxResults = 50, SearchResult.Total = 0,
      Issues = [''PROJ-51'', ''PROJ-52''],
      NextPageToken = '''', IsLast = True\<rparr>"

definition middlePage :: "string SearchResult" where
  "middlePage = \<lparr>SearchResult.StartAt = 50, SearchResult.MaxResults = 2, SearchResult.Total = 0,
      Issues = [''PROJ-51'', ''PROJ-52''],
      NextPageToken = ''t1'', IsLast = False\<rparr>"

definition exactPage :: "string SearchResult" where
  "exactPage = \<lparr>SearchResult.StartAt = 50, SearchResult.MaxResults = 50, SearchResult.Total = 52,
      Issues = [''PROJ-51'', ''PROJ-52''],
      NextPageToken = '''', IsLast = True\<rparr>"

definition answering :: "int \<Rightarrow> string SearchResult option \<Rightarrow> string Client" where
  "answering code body = \<lparr>Get = (\<lambda>path. Response code body), GetV2 = (\<lambda>path. Response code body)\<rparr>"

text \<open>
  The instants of the examples, in nanoseconds: 63839696400000000000 is 2024-01-01 09:00:00 UTC,
  63840045600000000000 is 2024-01-05 10:00:00, 63840312000000000000 is 2024-01-08 12:00:00, 63840497400000000000 is
  2024-01-10 15:30:00 and 63842342400000000000 is 2024-02-01 00:00:00.
\<close>

definition change :: "instant \<Rightarrow> string \<Rightarrow> string \<Rightarrow> StatusChange" where
  "change t a b = \<lparr>Timestamp = t, StatusChange.Author = ''alice'', FromStatus = a, ToStatus = b,
                    AuthorEmail = ''alice@example.com'', AuthorDisplayName = ''Alice''\<rparr>"

text \<open>A timeline that comes back to a status it has left.\<close>

definition reopened :: "StatusChange list" where
  "reopened = [change 63839696400000000000 '''' ''To Do'',
               change 63840045600000000000 ''To Do'' ''In Progress'',
               change 63840312000000000000 ''In Progress'' ''To Do'']"

text \<open>
  An ascending timeline whose first entry carries the zero \<^verbatim>\<open>Time\<close>, as a continuation
  page with a date in no layout leaves it.
\<close>

definition fromZeroTime :: "StatusChange list" where
  "fromZeroTime = [change 0 ''To Do'' ''In Progress'',
                   change 63840312000000000000 ''In Progress'' ''Done'']"

text \<open>
  What \<^verbatim>\<open>time.Parse\<close> makes of the timestamps of the examples in each layout (every other
  string is a parse error), and a clock that reads 2024-02-01 00:00:00.
\<close>

definition exampleTime :: timelib where
  "exampleTime =
    \<lparr>parseRFC3339 = map_of [(''2024-01-01T09:00:00Z'', 63839696400000000000),
                            (''2024-01-05T10:00:00Z'', 63840045600000000000),
                            (''2024-01-08T12:00:00Z'', 63840312000000000000),
                            (''2024-01-10T15:30:00Z'', 63840497400000000000)],
     parseMillis = map_of [(''2024-01-01T09:00:00.000+0000'', 63839696400000000000),
                           (''2024-01-05T10:00:00.000+0000'', 63840045600000000000)],
     now = 63842342400000000000\<rparr>"

text \<open>A history by alice with one status item, and an issue reported by bob.\<close>

definition statusItem :: "string \<Rightarrow> string \<Rightarrow> HistoryItem" where
  "statusItem a b = \<lparr>Field = ''status'', FieldType = ''jira'', From = ''1'', FromString = a,
                      To = ''2'', ToString = b\<rparr>"

definition history :: "string \<Rightarrow> string \<Rightarrow> string \<Rightarrow> IssueHistory" where
  "history created a b =
    \<lparr>ID = ''10001'',
     IssueHistory.Author = Some \<lparr>HistoryAuthor.Name = ''alice'', EmailAddress = ''alice@example.com'',
                     DisplayName = ''Alice''\<rparr>,
     IssueHistory.Created = created,
     Items = [statusItem a b]\<rparr>"

definition issue :: "string \<Rightarrow> IssueChangelog \<Rightarrow> IssueWithChangelog" where
  "issue created cl =
    \<lparr>Key = ''PROJ-1'',
     Fields = \<lparr>IssueFields.Created = created, Reporter = \<lparr>Reporter.Name = ''bob''\<rparr>\<rparr>,
     Changelog = Some cl\<rparr>"

text \<open>
  A cloud server that answers the request for the issue with \<open>i\<close> and the \<open>n\<close>-th
  changelog request, for the offset \<open>startAt\<close>, with \<open>pages n startAt\<close>.
\<close>

definition server :: "IssueWithChangelog \<Rightarrow> (nat \<Rightarrow> go_int \<Rightarrow> IssueChangelog reply) \<Rightarrow> JiraClient" where
  "server i pages =
    \<lparr>installationType = InstallationTypeCloud,
     GetIssue = (\<lambda>issueKey. Response 200 (Some i)),
     GetIssueV2 = (\<lambda>issueKey. NoResponse),
     GetChangelog = (\<lambda>n issueKey startAt. pages n startAt),
     GetChangelogV2 = (\<lambda>n issueKey startAt. NoResponse)\<rparr>"

text \<open>One page with two histories, the older one first.\<close>

definition oldestFirst :: JiraClient where
  "oldestFirst =
    server (issue ''2024-01-01T09:00:00Z''
        \<lparr>StartAt = 0, MaxResults = 100, Total = 2,
         Histories = [history ''2024-01-05T10:00:00Z'' ''To Do'' ''In Progress'',
                      history ''2024-01-08T12:00:00Z'' ''In Progress'' ''Done'']\<rparr>)
      (\<lambda>n startAt. NoResponse)"

text \<open>What the call returns for it.\<close>

definition oldestFirstResult :: "StatusChange list" where
  "oldestFirstResult =
    [\<lparr>Timestamp = 63839696400000000000, StatusChange.Author = ''bob'', FromStatus = '''',
       ToStatus = ''In Progress'', AuthorEmail = '''', AuthorDisplayName = ''bob''\<rparr>,
     change 63840312000000000000 ''In Progress'' ''Done'',
     change 63840045600000000000 ''To Do'' ''In Progress'']"

text \<open>
  Three pages of one history each, newest first: the embedded page, a first continuation
  page that arrives, and a second one that the server answers with status 500.
\<close>

definition secondPageFails :: JiraClient where
  "secondPageFails =
    server (issue ''2024-01-01T09:00:00Z''
        \<lparr>StartAt = 0, MaxResults = 1, Total = 3,
         Histories = [history ''2024-01-10T15:30:00Z'' ''Review'' ''Done'']\<rparr>)
      (\<lambda>n startAt.
         if n = 0 then
           Response 200 (Some \<lparr>StartAt = 1, MaxResults = 1, Total = 3,
             Histories = [history ''2024-01-08T12:00:00Z'' ''In Progress'' ''Review'']\<rparr>)
         else Response 500 None)"

text \<open>Two pages of one history each; the history of the second page has a date in no layout.\<close>

definition badDateOnSecondPage :: JiraClient where
  "badDateOnSecondPage =
    server (issue ''2024-01-01T09:00:00Z''
        \<lparr>StartAt = 0, MaxResults = 1, Total = 2,
         Histories = [history ''2024-01-08T12:00:00Z'' ''In Progress'' ''Done'']\<rparr>)
      (\<lambda>n startAt.
         Response 200 (Some \<lparr>StartAt = 1, MaxResults = 1, Total = 2,
           Histories = [history ''05/Jan/24 10:00 AM'' ''To Do'' ''In Progress'']\<rparr>))"

text \<open>The same two pages for an issue whose creation date did not come with the reply.\<close>

definition badDateNoCreation :: JiraClient where
  "badDateNoCreation =
    server (issue ''''
        \<lparr>StartAt = 0, MaxResults = 1, Total = 2,
         Histories = [history ''2024-01-08T12:00:00Z'' ''In Progress'' ''Done'']\<rparr>)
      (\<lambda>n startAt.
         Response 200 (Some \<lparr>StartAt = 1, MaxResults = 1, Total = 2,
           Histories = [history ''05/Jan/24 10:00 AM'' ''To Do'' ''In Progress'']\<rparr>))"

text \<open>
  A server that declares 250 histories, embeds a first page for 100 of them and answers
  every changelog request with an empty page.
\<close>

definition emptyPages :: JiraClient where
  "emptyPages =
    server (issue ''2024-01-01T09:00:00Z''
        \<lparr>StartAt = 0, MaxResults = 100, Total = 250,
         Histories = [history ''2024-01-08T12:00:00Z'' ''In Progress'' ''Done'']\<rparr>)
      (\<lambda>n startAt.
         Response 200 (Some \<lparr>StartAt = startAt, MaxResults = 100, Total = 250, Histories = []\<rparr>))"


text \<open>A server with three histories in pages of one, each continuation page full.\<close>

definition pagesOfOne :: JiraClient where
  "pagesOfOne =
    server (issue ''2024-01-01T09:00:00Z''
        \<lparr>StartAt = 0, MaxResults = 1, Total = 3,
         Histories = [history ''2024-01-10T15:30:00Z'' ''Review'' ''Done'']\<rparr>)
      (\<lambda>n startAt.
         Response 200 (Some \<lparr>StartAt = startAt, MaxResults = 1, Total = 3,
           Histories = [history ''2024-01-08T12:00:00Z'' ''In Progress'' ''Review'']\<rparr>))"








section \<open>Arithmetic of Go integers\<close>

text \<open>Adding a length to a non-negative value does not wrap while the sum stays below \<open>2 ^ 63\<close>.\<close>

lemma sint_word_of_nat:
  assumes "int l < 2 ^ 63"
  shows "sint (word_of_nat l :: go_int) = int l"
proof -
  have "sint (word_of_int (int l) :: go_int) = signed_take_bit (LENGTH(64) - 1) (int l)"
    by (rule sint_sbintrunc')
  then have "sint (word_of_nat l :: go_int) = signed_take_bit 63 (int l)"
    by simp
  also have "\<dots> = int l"
    using assms by (intro signed_take_bit_int_eq_self) simp_all
  finally show ?thesis .
qed

lemma sint_add_length:
  assumes "0 \<le> sint s" and "sint s + int l < 2 ^ 63"
  shows "sint (s + word_of_nat l :: go_int) = sint s + int l"
proof -
  have l: "sint (word_of_nat l :: go_int) = int l"
    using assms by (intro sint_word_of_nat) simp
  have "sint (s + word_of_nat l :: go_int) = signed_take_bit 63 (sint s + int l)"
    by (simp add: sint_word_add l)
  also have "\<dots> = sint s + int l"
    using assms by (intro signed_take_bit_int_eq_self) simp_all
  finally show ?thesis .
qed


lemma sint_offset_plus_count:
  assumes "int (unat offset) + int n < 2 ^ 63"
  shows "sint (offset + word_of_nat n :: go_int) = int (unat offset) + int n"
proof -
  have u: "uint offset < 2 ^ 63" using assms by simp
  have "sint offset = signed_take_bit (LENGTH(64) - Suc 0) (uint offset)"
    by (rule sint_uint)
  also have "\<dots> = uint offset"
  proof (rule signed_take_bit_int_eq_self)
    show "- (2 ^ (LENGTH(64) - Suc 0)) \<le> uint offset"
      by (rule order_trans [where y = 0]) simp_all
    show "uint offset < 2 ^ (LENGTH(64) - Suc 0)" using u by simp
  qed
  finally have s: "sint offset = int (unat offset)" by simp
  show ?thesis
    using assms sint_add_length [of offset n] by (simp add: s)
qed


section \<open>Properties of the query bound\<close>

lemma Contains_sublist: "Contains s substr \<longleftrightarrow> sublist substr s"
  by (induction s) (simp_all add: sublist_Cons_right)

text \<open>Bytes below 0x80 are lowered where they stand, whatever surrounds them.\<close>

lemma lowerFrom_ascii:
  "list_all isASCII a \<Longrightarrow> lowerFrom g [] (a @ s) = map toLowerChar a @ lowerFrom g [] s"
  by (induction a) (simp_all add: flush_def)

lemma ToLower_ascii_prefix:
  "list_all isASCII a \<Longrightarrow> ToLower g (a @ s) = map toLowerChar a @ ToLower g s"
  by (simp add: ToLower_def lowerFrom_ascii)

lemma ToLower_ascii: "list_all isASCII a \<Longrightarrow> ToLower g a = map toLowerChar a"
  using ToLower_ascii_prefix [of a g "[]"] by (simp add: ToLower_def flush_def)

lemma lowerFrom_split:
  "isASCII c \<Longrightarrow>
   lowerFrom g run (p @ c # s) = lowerFrom g run p @ toLowerChar c # lowerFrom g [] s"
  by (induction p arbitrary: run) simp_all

lemma ToLower_around_ascii:
  assumes "t \<noteq> []" and "list_all isASCII t"
  shows "ToLower g (p @ t @ s) = ToLower g p @ map toLowerChar t @ ToLower g s"
proof -
  obtain c t' where t: "t = c # t'" using assms(1) by (cases t) auto
  then have c: "isASCII c" and t': "list_all isASCII t'" using assms(2) by simp_all
  have "ToLower g (p @ c # (t' @ s)) = ToLower g p @ toLowerChar c # ToLower g (t' @ s)"
    unfolding ToLower_def by (rule lowerFrom_split [OF c])
  then show ?thesis by (simp add: t ToLower_ascii_prefix [OF t'])
qed

lemma anyTerm_iff:
  "anyTerm g jqlLower terms \<longleftrightarrow> (\<exists>v \<in> set terms. sublist (ToLower g v) jqlLower)"
  by (induction terms) (simp_all add: Contains_sublist)

lemma boundingTerms_ascii:
  "v \<in> set boundingTerms \<Longrightarrow> v \<noteq> [] \<and> list_all isASCII v"
  by (auto simp: boundingTerms_def isASCII_def)

lemma isJQLBounded_iff:
  "isJQLBounded g q \<longleftrightarrow> (\<exists>v \<in> set boundingTerms. sublist (map toLowerChar v) (ToLower g q))"
proof -
  have "(\<exists>v \<in> set boundingTerms. sublist (ToLower g v) (ToLower g q))
        \<longleftrightarrow> (\<exists>v \<in> set boundingTerms. sublist (map toLowerChar v) (ToLower g q))"
    by (intro bex_cong refl) (simp add: ToLower_ascii boundingTerms_ascii)
  then show ?thesis by (simp add: isJQLBounded_def anyTerm_iff)
qed

lemmas eval_bounded =
  isJQLBounded_def boundingTerms_def ToLower_def flush_def isASCII_def toLowerChar_def
  kelvinSign_def dottedI_def exampleRuns_def

lemma isJQLBounded_empty: "\<not> isJQLBounded g ''''"
  by (simp add: eval_bounded)

lemma isJQLBounded_assignee: "\<not> isJQLBounded g ''assignee = bob''"
  by (simp add: eval_bounded)

lemma fragment_is_bounded:
  assumes "v \<in> set boundingTerms" and "list_all isASCII t"
    and "map toLowerChar t = map toLowerChar v"
  shows "isJQLBounded g (p @ t @ s)"
proof -
  have "t \<noteq> []" using assms(3) boundingTerms_ascii [OF assms(1)] by auto
  then have "ToLower g (p @ t @ s) = ToLower g p @ map toLowerChar v @ ToLower g s"
    using assms(2,3) by (simp add: ToLower_around_ascii)
  then have "sublist (map toLowerChar v) (ToLower g (p @ t @ s))" by simp
  then show ?thesis using assms(1) unfolding isJQLBounded_iff by blast
qed

lemma default_bound_is_bounded: "isJQLBounded g (''created >= -90d'' @ rest)"
  using fragment_is_bounded [of "''created >=''" "''created >=''" g "[]" "'' -90d'' @ rest"]
  by (simp add: boundingTerms_def isASCII_def)

lemma isJQLBounded_boundJQL: "isJQLBounded g (boundJQL g q)"
proof (cases "isJQLBounded g q")
  case True
  then show ?thesis by (simp add: boundJQL_def)
next
  case False
  have "isJQLBounded g (''created >= -90d'' @ [])" by (rule default_bound_is_bounded)
  moreover have "isJQLBounded g (''created >= -90d'' @ ('' AND ('' @ q @ '')''))"
    by (rule default_bound_is_bounded)
  ultimately show ?thesis using False by (simp add: boundJQL_def)
qed

text \<open>
  C7. The bound put in front of a query, whatever Go's lowering makes of the bytes outside
  ASCII. The empty query becomes \<^verbatim>\<open>created >= -90d\<close>, the query \<^verbatim>\<open>assignee = bob\<close> becomes
  \<^verbatim>\<open>created >= -90d AND (assignee = bob)\<close>, every non-empty query \<open>q\<close> that \<open>isJQLBounded\<close>
  rejects becomes \<^verbatim>\<open>created >= -90d AND (q)\<close>, and a query that \<open>isJQLBounded\<close> accepts is
  passed on as it is. \<open>isJQLBounded\<close> accepts exactly the queries whose lowered text contains
  the lowered form of a bounding term; in particular a query in which a bounding term
  occurs, in any mix of upper and lower case, is passed on as it is.
\<close>

theorem bound_synthesis:
  "boundJQL g '''' = ''created >= -90d''
   \<and> boundJQL g ''assignee = bob'' = ''created >= -90d AND (assignee = bob)''
   \<and> (\<not> isJQLBounded g q \<and> q \<noteq> '''' \<longrightarrow> boundJQL g q = ''created >= -90d AND ('' @ q @ '')'')
   \<and> (isJQLBounded g q \<longrightarrow> boundJQL g q = q)
   \<and> (isJQLBounded g q \<longleftrightarrow>
        (\<exists>v \<in> set boundingTerms. sublist (map toLowerChar v) (ToLower g q)))
   \<and> (v \<in> set boundingTerms \<and> list_all isASCII t \<and> map toLowerChar t = map toLowerChar v
        \<longrightarrow> boundJQL g (p @ t @ s) = p @ t @ s)"
  using isJQLBounded_empty [of g] isJQLBounded_assignee [of g] isJQLBounded_iff [of g q]
    fragment_is_bounded [of v t g p s]
  by (simp add: boundJQL_def)

theorem bound_synthesis_witness:
  "\<not> isJQLBounded exampleRuns ''status = Open'' \<and> ''status = Open'' \<noteq> ''''
   \<and> boundJQL exampleRuns ''status = Open'' = ''created >= -90d AND (status = Open)''
   \<and> isJQLBounded exampleRuns ''Project IN (A, B) AND assignee = bob''
   \<and> boundJQL exampleRuns ''Project IN (A, B) AND assignee = bob''
        = ''Project IN (A, B) AND assignee = bob''
   \<and> isJQLBounded exampleRuns (kelvinSign @ ''ey = PROJ-1'')
   \<and> boundJQL exampleRuns (kelvinSign @ ''ey = PROJ-1'') = kelvinSign @ ''ey = PROJ-1''
   \<and> ''updated <'' \<in> set boundingTerms \<and> list_all isASCII ''UpDated <''
   \<and> boundJQL exampleRuns (dottedI @ ''ssue = 1 AND '' @ ''UpDated <'' @ '' -1d'')
        = dottedI @ ''ssue = 1 AND '' @ ''UpDated <'' @ '' -1d''"
proof -
  have u: "\<not> isJQLBounded exampleRuns ''status = Open''"
    by (simp add: eval_bounded)
  have b: "isJQLBounded exampleRuns ''Project IN (A, B) AND assignee = bob''"
    by (simp add: eval_bounded)
  have k: "isJQLBounded exampleRuns (kelvinSign @ ''ey = PROJ-1'')"
    by (simp add: eval_bounded)
  have f: "''updated <'' \<in> set boundingTerms" "list_all isASCII ''UpDated <''"
    "map toLowerChar ''UpDated <'' = map toLowerChar ''updated <''"
    by (simp_all add: boundingTerms_def isASCII_def toLowerChar_def)
  show ?thesis
    using u b k f bound_synthesis [of exampleRuns "''status = Open''"]
      bound_synthesis [of exampleRuns "''Project IN (A, B) AND assignee = bob''"]
      bound_synthesis [of exampleRuns "kelvinSign @ ''ey = PROJ-1''"]
      bound_synthesis [of exampleRuns _ "''updated <''" "''UpDated <''"
        "dottedI @ ''ssue = 1 AND ''" "'' -1d''"]
    by simp
qed

text \<open>
  C8. Bounding twice is bounding once. A query that passes \<open>isJQLBounded\<close> is returned
  unchanged; every result of \<open>boundJQL\<close> passes \<open>isJQLBounded\<close>; hence a second application
  changes nothing.
\<close>

theorem bounding_idempotent:
  "(isJQLBounded g q \<longrightarrow> boundJQL g q = q)
   \<and> isJQLBounded g (boundJQL g q)
   \<and> boundJQL g (boundJQL g q) = boundJQL g q"
  using isJQLBounded_boundJQL [of g q] by (simp add: boundJQL_def)

theorem bounding_idempotent_witness:
  "isJQLBounded exampleRuns ''key = PROJ-1''
   \<and> boundJQL exampleRuns ''key = PROJ-1'' = ''key = PROJ-1''
   \<and> boundJQL exampleRuns (boundJQL exampleRuns ''assignee = bob'')
        = ''created >= -90d AND (assignee = bob)''"
proof -
  have b: "isJQLBounded exampleRuns ''key = PROJ-1''"
    by (simp add: eval_bounded)
  have u: "\<not> isJQLBounded exampleRuns ''assignee = bob''"
    by (simp add: eval_bounded)
  have e: "boundJQL exampleRuns ''assignee = bob'' = ''created >= -90d AND (assignee = bob)''"
    using u by (simp add: boundJQL_def)
  show ?thesis
    using b e bounding_idempotent [of exampleRuns "''key = PROJ-1''"]
      bounding_idempotent [of exampleRuns "''assignee = bob''"]
    by simp
qed


section \<open>Properties of search\<close>

text \<open>
  C5. When the new endpoint answers 200 with a body that decodes to \<open>out\<close>: if \<open>out\<close> has
  total 0 and at least one issue, the result carries as total \<^verbatim>\<open>int(from) + len(out.Issues)\<close>
  when \<open>IsLast\<close> is set and 10000 otherwise; if \<open>out\<close> has a total other than 0, the result is
  \<open>out\<close> itself.
\<close>

theorem search_total_approximation:
  assumes "Get c (SearchJQLPath (boundJQL g jql) from limit) = Response StatusOK (Some out)"
  shows "(SearchResult.Total out = 0 \<and> Issues out \<noteq> [] \<and> IsLast out \<longrightarrow>
            search g c jql from limit apiVersion3
              = Inr (out\<lparr>SearchResult.Total := from + word_of_nat (length (Issues out))\<rparr>))
       \<and> (SearchResult.Total out = 0 \<and> Issues out \<noteq> [] \<and> \<not> IsLast out \<longrightarrow>
            search g c jql from limit apiVersion3 = Inr (out\<lparr>SearchResult.Total := 10000\<rparr>))
       \<and> (SearchResult.Total out \<noteq> 0 \<longrightarrow> search g c jql from limit apiVersion3 = Inr out)"
  using assms by (simp add: search_def fixTotal_def)

theorem search_total_approximation_witness:
  "search exampleRuns (answering 200 (Some lastPage)) ''project = PROJ'' 50 50 apiVersion3
      = Inr (lastPage\<lparr>SearchResult.Total := 52\<rparr>)
   \<and> search exampleRuns (answering 200 (Some middlePage)) ''project = PROJ'' 50 2 apiVersion3
      = Inr (middlePage\<lparr>SearchResult.Total := 10000\<rparr>)
   \<and> search exampleRuns (answering 200 (Some exactPage)) ''project = PROJ'' 50 50 apiVersion3
      = Inr exactPage"
proof -
  have r: "Get (answering 200 (Some out)) (SearchJQLPath (boundJQL exampleRuns ''project = PROJ'') offset limit)
             = Response StatusOK (Some out)" for out offset limit
    by (simp add: answering_def StatusOK_def)
  show ?thesis
    using search_total_approximation [OF r, of lastPage 50 50]
      search_total_approximation [OF r, of middlePage 50 2]
      search_total_approximation [OF r, of exactPage 50 50]
    by (simp add: lastPage_def middlePage_def exactPage_def)
qed

text \<open>The same total read as a number, for offsets and pages far from \<open>2 ^ 63\<close>.\<close>

lemma last_page_total_as_number:
  assumes "SearchResult.Total out = 0" and "Issues out \<noteq> []" and "IsLast out"
    and "int (unat offset) + int (length (Issues out)) < 2 ^ 63"
  shows "sint (SearchResult.Total (fixTotal apiVersion3 offset out))
           = int (unat offset) + int (length (Issues out))"
  using assms by (simp add: fixTotal_def sint_offset_plus_count)

text \<open>
  C10. A response whose status code is not 200 makes \<open>search\<close> return an error, for either
  version of the API and whatever the body holds.
\<close>

theorem search_non_200_is_error:
  assumes "code \<noteq> StatusOK"
    and "ver = apiVersion3 \<longrightarrow> Get c (SearchJQLPath (boundJQL g jql) from limit) = Response code body"
    and "ver = apiVersion2 \<longrightarrow> GetV2 c (SearchPath jql from limit) = Response code body"
  shows "search g c jql from limit ver = Inl (UnexpectedStatus code)"
  using assms by (cases ver) (simp_all add: search_def)

theorem search_non_200_is_error_witness:
  "search exampleRuns (answering 201 (Some exactPage)) ''project = PROJ'' 0 50 apiVersion3
      = Inl (UnexpectedStatus 201)
   \<and> search exampleRuns (answering 204 None) ''project = PROJ'' 0 50 apiVersion2
      = Inl (UnexpectedStatus 204)"
proof -
  have "search exampleRuns (answering 201 (Some exactPage)) ''project = PROJ'' 0 50 apiVersion3
          = Inl (UnexpectedStatus 201)"
    by (rule search_non_200_is_error) (simp_all add: answering_def StatusOK_def)
  moreover have "search exampleRuns (answering 204 None) ''project = PROJ'' 0 50 apiVersion2
          = Inl (UnexpectedStatus 204)"
    by (rule search_non_200_is_error) (simp_all add: answering_def StatusOK_def)
  ultimately show ?thesis by simp
qed


section \<open>Properties of calculateStatusTime\<close>

lemma addDuration_exact:
  "- (2 ^ 63) \<le> a + b \<Longrightarrow> a + b < 2 ^ 63 \<Longrightarrow> addDuration a b = a + b"
  by (simp add: addDuration_def)

lemma Sub_exact:
  "- (2 ^ 63) \<le> t - u \<Longrightarrow> t - u < 2 ^ 63 \<Longrightarrow> Sub t u = t - u"
  by (simp add: Sub_def minDuration_def maxDuration_def)

lemma dom_addResidency:
  "dom (addResidency nowT changes i statusTime) = insert (ToStatus (changes ! i)) (dom statusTime)"
  by (simp add: addResidency_def)

lemma lookup0_le_totalTime:
  assumes "finite (dom statusTime)" and "\<forall>k. 0 \<le> lookup0 statusTime k"
  shows "lookup0 statusTime status \<le> totalTime statusTime"
proof (cases "status \<in> dom statusTime")
  case True
  then show ?thesis
    unfolding totalTime_def using assms by (intro member_le_sum) simp_all
next
  case False
  then have "lookup0 statusTime status = 0" by (auto simp: lookup0_def split: option.splits)
  then show ?thesis unfolding totalTime_def using assms(2) by (simp add: sum_nonneg)
qed

lemma addResidency_exact:
  assumes "finite (dom statusTime)" and "\<forall>k. 0 \<le> lookup0 statusTime k"
    and "- (2 ^ 63) \<le> residency nowT changes i"
    and "totalTime statusTime + residency nowT changes i < 2 ^ 63"
  shows "addResidency nowT changes i statusTime
           = statusTime(ToStatus (changes ! i) \<mapsto>
               lookup0 statusTime (ToStatus (changes ! i)) + residency nowT changes i)"
proof -
  let ?k = "ToStatus (changes ! i)"
  have "lookup0 statusTime ?k \<le> totalTime statusTime"
    using assms(1,2) by (rule lookup0_le_totalTime)
  moreover have "0 \<le> lookup0 statusTime ?k" using assms(2) by blast
  ultimately have "addDuration (lookup0 statusTime ?k) (residency nowT changes i)
                     = lookup0 statusTime ?k + residency nowT changes i"
    using assms(3,4) by (intro addDuration_exact) simp_all
  then show ?thesis by (simp add: addResidency_def)
qed

lemma totalTime_update:
  assumes "finite (dom statusTime)"
  shows "totalTime (statusTime(k \<mapsto> lookup0 statusTime k + d)) = totalTime statusTime + d"
proof -
  let ?m = "statusTime(k \<mapsto> lookup0 statusTime k + d)"
  have other: "lookup0 ?m s = lookup0 statusTime s" if "s \<noteq> k" for s
    using that by (simp add: lookup0_def)
  have at: "lookup0 ?m k = lookup0 statusTime k + d"
    by (simp add: lookup0_def)
  have rest: "(\<Sum>s \<in> dom statusTime - {k}. lookup0 ?m s)
                = (\<Sum>s \<in> dom statusTime - {k}. lookup0 statusTime s)"
    by (rule sum.cong) (simp_all add: other)
  have A: "totalTime ?m = lookup0 ?m k + (\<Sum>s \<in> dom statusTime - {k}. lookup0 ?m s)"
    unfolding totalTime_def using assms by (simp add: sum.insert_remove)
  have B: "lookup0 statusTime k + (\<Sum>s \<in> dom statusTime - {k}. lookup0 statusTime s)
               = totalTime statusTime"
  proof (cases "k \<in> dom statusTime")
    case True
    then show ?thesis unfolding totalTime_def using assms by (simp add: sum.remove)
  next
    case False
    then have "lookup0 statusTime k = 0" by (auto simp: lookup0_def split: option.splits)
    then show ?thesis unfolding totalTime_def using False by simp
  qed
  from A B show ?thesis by (simp add: at rest)
qed

lemma fold_exact:
  assumes "finite (dom statusTime)" and "\<forall>k. 0 \<le> lookup0 statusTime k"
    and "\<forall>i \<in> set is. 0 \<le> residency nowT changes i"
    and "totalTime statusTime + sum_list (map (residency nowT changes) is) < 2 ^ 63"
  shows "totalTime (fold (addResidency nowT changes) is statusTime)
           = totalTime statusTime + sum_list (map (residency nowT changes) is)
       \<and> (\<forall>status. lookup0 (fold (addResidency nowT changes) is statusTime) status
           = lookup0 statusTime status
             + sum_list (map (residency nowT changes)
                 (filter (\<lambda>i. ToStatus (changes ! i) = status) is)))"
  using assms
proof (induction "is" arbitrary: statusTime)
  case Nil
  then show ?case by simp
next
  case (Cons i "is")
  let ?k = "ToStatus (changes ! i)"
  let ?d = "residency nowT changes i"
  let ?m = "statusTime(?k \<mapsto> lookup0 statusTime ?k + ?d)"
  have d: "0 \<le> ?d" using Cons.prems(3) by simp
  have rest: "0 \<le> sum_list (map (residency nowT changes) is)"
    using Cons.prems(3) by (intro sum_list_nonneg) auto
  have step: "addResidency nowT changes i statusTime = ?m"
    using Cons.prems(1,2) d Cons.prems(4) rest by (intro addResidency_exact) simp_all
  have tot: "totalTime ?m = totalTime statusTime + ?d"
    using Cons.prems(1) by (rule totalTime_update)
  have look: "lookup0 ?m s = lookup0 statusTime s + (if ?k = s then ?d else 0)" for s
    by (simp add: lookup0_def)
  have "finite (dom ?m)" using Cons.prems(1) by simp
  moreover have "\<forall>s. 0 \<le> lookup0 ?m s" using Cons.prems(2) d by (simp add: look)
  moreover have "\<forall>j \<in> set is. 0 \<le> residency nowT changes j" using Cons.prems(3) by simp
  moreover have "totalTime ?m + sum_list (map (residency nowT changes) is) < 2 ^ 63"
    using Cons.prems(4) by (simp add: tot)
  ultimately have IH: "totalTime (fold (addResidency nowT changes) is ?m)
           = totalTime ?m + sum_list (map (residency nowT changes) is)
       \<and> (\<forall>status. lookup0 (fold (addResidency nowT changes) is ?m) status
           = lookup0 ?m status
             + sum_list (map (residency nowT changes)
                 (filter (\<lambda>i. ToStatus (changes ! i) = status) is)))"
    by (rule Cons.IH)
  show ?case by (simp add: step IH tot look)
qed

lemma finite_dom_fold:
  "finite (dom statusTime) \<Longrightarrow> finite (dom (fold (addResidency nowT changes) is statusTime))"
  by (induction "is" arbitrary: statusTime) (simp_all add: dom_addResidency)

lemma residency_exact:
  assumes "sorted (map Timestamp changes)" and "changes \<noteq> []"
    and "Timestamp (last changes) - Timestamp (changes ! 0) \<le> maxDuration"
    and "minDuration \<le> nowT - Timestamp (last changes)"
    and "nowT - Timestamp (changes ! 0) \<le> maxDuration"
    and "i < length changes"
  shows "residency nowT changes i = elapsed nowT changes i"
    and "Suc i < length changes \<Longrightarrow> 0 \<le> residency nowT changes i"
proof -
  have mono: "Timestamp (changes ! a) \<le> Timestamp (changes ! b)"
    if "a \<le> b" "b < length changes" for a b
    using assms(1) that sorted_nth_mono [of "map Timestamp changes" a b] by simp
  have lastn: "last changes = changes ! (length changes - 1)"
    using assms(2) by (simp add: last_conv_nth)
  have top: "Timestamp (changes ! b) \<le> Timestamp (last changes)" if "b < length changes" for b
  proof -
    have "b \<le> length changes - 1" "length changes - 1 < length changes" using that by simp_all
    from mono [OF this] show ?thesis using lastn by simp
  qed
  have bot: "Timestamp (changes ! 0) \<le> Timestamp (changes ! b)" if "b < length changes" for b
    using mono [of 0 b] that by simp
  have r: "residency nowT changes i = elapsed nowT changes i
           \<and> (Suc i < length changes \<longrightarrow> 0 \<le> residency nowT changes i)"
  proof (cases "Suc i < length changes")
    case True
    have "Timestamp (changes ! i) \<le> Timestamp (changes ! Suc i)"
      using mono [of i "Suc i"] True by simp
    moreover have "Timestamp (changes ! Suc i) \<le> Timestamp (last changes)" using top True by simp
    moreover have "Timestamp (changes ! 0) \<le> Timestamp (changes ! i)" using bot assms(6) by simp
    ultimately show ?thesis
      using True assms(3)
      by (simp add: residency_def elapsed_def Sub_def maxDuration_def minDuration_def)
  next
    case False
    then have "i = length changes - 1" using assms(6) by simp
    then have "changes ! i = last changes" using lastn by simp
    moreover have "Timestamp (changes ! 0) \<le> Timestamp (last changes)"
      using top [of 0] assms(2) by simp
    ultimately show ?thesis
      using False assms(4,5)
      by (simp add: residency_def elapsed_def Sub_def maxDuration_def minDuration_def)
  qed
  show "residency nowT changes i = elapsed nowT changes i" using r by blast
  show "Suc i < length changes \<Longrightarrow> 0 \<le> residency nowT changes i" using r by blast
qed

lemma elapsed_telescope:
  "n < length changes \<Longrightarrow>
   sum_list (map (elapsed nowT changes) [0..<n])
     = Timestamp (changes ! n) - Timestamp (changes ! 0)"
  by (induction n) (simp_all add: elapsed_def)

text \<open>
  C9. For an ascending timeline of at least one entry in which the three spans the code
  can meet fit in a \<^verbatim>\<open>time.Duration\<close> (about 292 years), from the first entry to the last,
  from the last entry to \<open>now\<close> and from the first entry to \<open>now\<close>: the durations that
  \<open>calculateStatusTime\<close> holds add up to \<open>now\<close> minus the timestamp of the first entry; the
  duration held for a status is the sum of the residencies of all the entries that enter
  it, so a status that recurs has its residencies added; and the residency of entry \<open>i\<close>
  is \<open>timestamp (i + 1) - timestamp i\<close>, that of the last entry \<open>now - timestamp\<close>.
\<close>

theorem duration_sum_invariant:
  assumes "changes \<noteq> []" and "sorted (map Timestamp changes)"
    and "Timestamp (last changes) - Timestamp (changes ! 0) \<le> maxDuration"
    and "minDuration \<le> nowT - Timestamp (last changes)"
    and "nowT - Timestamp (changes ! 0) \<le> maxDuration"
  shows "totalTime (calculateStatusTime nowT changes) = nowT - Timestamp (changes ! 0)
       \<and> lookup0 (calculateStatusTime nowT changes) status
           = sum_list (map (residency nowT changes)
               (filter (\<lambda>i. ToStatus (changes ! i) = status) [0..<length changes]))
       \<and> (i < length changes \<longrightarrow> residency nowT changes i = elapsed nowT changes i)"
proof -
  note exact = residency_exact [OF assms(2,1,3,4,5)]
  obtain n where n: "length changes = Suc n" using assms(1) by (cases changes) auto
  have lastn: "last changes = changes ! n" using assms(1) n by (simp add: last_conv_nth)
  let ?r = "residency nowT changes"
  let ?m = "fold (addResidency nowT changes) [0..<n] Map.empty"
  have early: "map ?r [0..<n] = map (elapsed nowT changes) [0..<n]"
    using exact(1) n by (intro map_cong refl) simp
  have sum_early: "sum_list (map ?r [0..<n]) = Timestamp (last changes) - Timestamp (changes ! 0)"
    using elapsed_telescope [of n changes nowT] n lastn by (simp add: early)
  have nonneg: "\<forall>j \<in> set [0..<n]. 0 \<le> ?r j" using exact(2) n by simp
  have empty: "totalTime Map.empty = 0" "\<forall>k. 0 \<le> lookup0 Map.empty k" "finite (dom Map.empty)"
    by (simp_all add: totalTime_def lookup0_def)
  have "totalTime Map.empty + sum_list (map ?r [0..<n]) < 2 ^ 63"
    using assms(3) by (simp add: sum_early empty maxDuration_def)
  from fold_exact [OF empty(3,2) nonneg this]
  have tot: "totalTime ?m = Timestamp (last changes) - Timestamp (changes ! 0)"
    and look: "\<And>s. lookup0 ?m s
                 = sum_list (map ?r (filter (\<lambda>i. ToStatus (changes ! i) = s) [0..<n]))"
    by (simp_all add: empty sum_early lookup0_def)
  have pos: "\<forall>s. 0 \<le> lookup0 ?m s"
  proof
    fix s
    have "0 \<le> sum_list (map ?r (filter (\<lambda>i. ToStatus (changes ! i) = s) [0..<n]))"
      using nonneg by (intro sum_list_nonneg) auto
    then show "0 \<le> lookup0 ?m s" by (simp add: look)
  qed
  have fin: "finite (dom ?m)" by (rule finite_dom_fold) simp
  have final: "?r n = nowT - Timestamp (last changes)"
    using exact(1) [of n] n lastn by (simp add: elapsed_def)
  have step: "addResidency nowT changes n ?m
                = ?m(ToStatus (changes ! n) \<mapsto> lookup0 ?m (ToStatus (changes ! n)) + ?r n)"
    using fin pos assms(4,5)
    by (intro addResidency_exact) (simp_all add: final tot minDuration_def maxDuration_def)
  have whole: "calculateStatusTime nowT changes
                 = ?m(ToStatus (changes ! n) \<mapsto> lookup0 ?m (ToStatus (changes ! n)) + ?r n)"
    by (simp add: calculateStatusTime_def n step)
  have "totalTime (calculateStatusTime nowT changes) = totalTime ?m + ?r n"
    unfolding whole using fin by (rule totalTime_update)
  then have total: "totalTime (calculateStatusTime nowT changes) = nowT - Timestamp (changes ! 0)"
    by (simp add: tot final)
  have "lookup0 (calculateStatusTime nowT changes) status
          = lookup0 ?m status + (if ToStatus (changes ! n) = status then ?r n else 0)"
    unfolding whole by (simp add: lookup0_def)
  then have per: "lookup0 (calculateStatusTime nowT changes) status
           = sum_list (map ?r (filter (\<lambda>i. ToStatus (changes ! i) = status) [0..<length changes]))"
    by (simp add: look n)
  show ?thesis using total per exact(1) [of i] by simp
qed

theorem duration_sum_invariant_witness:
  "reopened \<noteq> [] \<and> sorted (map Timestamp reopened)
   \<and> totalTime (calculateStatusTime 63842342400000000000 reopened)
        = 63842342400000000000 - 63839696400000000000
   \<and> lookup0 (calculateStatusTime 63842342400000000000 reopened) ''To Do''
        = (63840045600000000000 - 63839696400000000000)
          + (63842342400000000000 - 63840312000000000000)"
proof -
  let ?now = "63842342400000000000 :: instant"
  have h: "reopened \<noteq> []" "sorted (map Timestamp reopened)"
    "Timestamp (last reopened) - Timestamp (reopened ! 0) \<le> maxDuration"
    "minDuration \<le> ?now - Timestamp (last reopened)"
    "?now - Timestamp (reopened ! 0) \<le> maxDuration"
    by (simp_all add: reopened_def change_def maxDuration_def minDuration_def)
  note t = duration_sum_invariant [OF h]
  have total: "totalTime (calculateStatusTime ?now reopened) = ?now - Timestamp (reopened ! 0)"
    using t by blast
  have first: "Timestamp (reopened ! 0) = 63839696400000000000"
    by (simp add: reopened_def change_def)
  have look: "lookup0 (calculateStatusTime ?now reopened) ''To Do''
                = sum_list (map (residency ?now reopened)
                    (filter (\<lambda>i. ToStatus (reopened ! i) = ''To Do'') [0..<length reopened]))"
    using t by blast
  have filt: "filter (\<lambda>i. ToStatus (reopened ! i) = ''To Do'') [0..<length reopened] = [0, 2]"
    by (simp add: reopened_def change_def upt_rec)
  have "0 < length reopened" "2 < length reopened" by (simp_all add: reopened_def)
  then have "residency ?now reopened 0 = elapsed ?now reopened 0"
    "residency ?now reopened 2 = elapsed ?now reopened 2"
    using t [of _ 0] t [of _ 2] by blast+
  then have r: "residency ?now reopened 0 = 63840045600000000000 - 63839696400000000000"
    "residency ?now reopened 2 = ?now - 63840312000000000000"
    by (simp_all add: elapsed_def reopened_def change_def)
  show ?thesis
    using h(1,2) by (simp add: total first look filt r)
qed

lemma fromZeroTime_map:
  "calculateStatusTime 63842342400000000000 fromZeroTime
     = [''In Progress'' \<mapsto> 9223372036854775807, ''Done'' \<mapsto> 2030400000000000]"
  by (simp add: calculateStatusTime_def fromZeroTime_def change_def residency_def addResidency_def
      lookup0_def addDuration_def Sub_def minDuration_def maxDuration_def upt_rec)

text \<open>
  C9, without the bound on the span. The timeline below is ascending and starts at the zero
  \<^verbatim>\<open>Time\<close>. Its first residency is cut to the longest \<^verbatim>\<open>time.Duration\<close>, and the durations
  add up to 9225402436854775807 nanoseconds: neither \<open>now\<close> minus the first timestamp
  (63842342400000000000) nor what \<^verbatim>\<open>Sub\<close> makes of that difference.
\<close>

theorem zero_time_breaks_sum:
  "fromZeroTime \<noteq> [] \<and> sorted (map Timestamp fromZeroTime)
   \<and> totalTime (calculateStatusTime 63842342400000000000 fromZeroTime) = 9225402436854775807
   \<and> totalTime (calculateStatusTime 63842342400000000000 fromZeroTime)
        \<noteq> 63842342400000000000 - Timestamp (fromZeroTime ! 0)
   \<and> totalTime (calculateStatusTime 63842342400000000000 fromZeroTime)
        \<noteq> Sub 63842342400000000000 (Timestamp (fromZeroTime ! 0))"
  unfolding fromZeroTime_map
  by (simp add: totalTime_def lookup0_def fromZeroTime_def change_def Sub_def maxDuration_def
      minDuration_def)


section \<open>Properties of the status history\<close>

text \<open>The swapping loop reverses the list.\<close>

declare swapLoop.simps [simp del]

lemma swapLoop_invariant:
  assumes "length ys = length xs" and "i \<le> length xs div 2"
    and "\<forall>k < length xs. ys ! k = (if k < i \<or> length xs - i \<le> k then xs ! (length xs - 1 - k) else xs ! k)"
  shows "swapLoop i ys = rev xs"
  using assms
proof (induction i ys rule: swapLoop.induct)
  case (1 i ys)
  let ?n = "length xs"
  show ?case
  proof (cases "i < length ys div 2")
    case True
    let ?j = "length ys - 1 - i"
    let ?ys' = "ys[i := ys ! ?j, ?j := ys ! i]"
    have len: "length ys = ?n" by (rule "1.prems"(1))
    have ij: "i < ?j" "?j < ?n" using True len by auto
    have "swapLoop (Suc i) ?ys' = rev xs"
    proof (rule "1.IH" [OF True refl])
      show "length ?ys' = ?n" using len by simp
      show "Suc i \<le> ?n div 2" using True len by simp
      show "\<forall>k < ?n. ?ys' ! k = (if k < Suc i \<or> ?n - Suc i \<le> k then xs ! (?n - 1 - k) else xs ! k)"
      proof (intro allI impI)
        fix k assume k: "k < ?n"
        have ni: "\<not> (i < i \<or> ?n - i \<le> i)" and i: "i < ?n" using ij len by auto
        have yi: "ys ! i = xs ! i" using "1.prems"(3) [rule_format, OF i] ni by simp
        have nj: "\<not> (?j < i \<or> ?n - i \<le> ?j)" using ij len by auto
        have yj: "ys ! ?j = xs ! ?j" using "1.prems"(3) [rule_format, OF ij(2)] nj by simp
        have yk: "ys ! k = (if k < i \<or> ?n - i \<le> k then xs ! (?n - 1 - k) else xs ! k)"
          using "1.prems"(3) k by blast
        consider "k = i" | "k = ?j" | "k \<noteq> i" "k \<noteq> ?j" by blast
        then show "?ys' ! k = (if k < Suc i \<or> ?n - Suc i \<le> k then xs ! (?n - 1 - k) else xs ! k)"
        proof cases
          case 1
          then show ?thesis using ij len yj by (simp add: nth_list_update)
        next
          case 2
          have "?n - 1 - ?j = i" using ij len by simp
          then show ?thesis using 2 ij len yi by (simp add: nth_list_update)
        next
          case 3
          then show ?thesis using ij len yk k by (auto simp: nth_list_update)
        qed
      qed
    qed
    then show ?thesis using True by (subst swapLoop.simps) (simp add: Let_def)
  next
    case False
    have len: "length ys = ?n" by (rule "1.prems"(1))
    have i: "i = ?n div 2" using False "1.prems"(2) len by simp
    have "ys = rev xs"
    proof (rule nth_equalityI)
      show "length ys = length (rev xs)" using len by simp
      fix k assume "k < length ys"
      then have k: "k < ?n" using len by simp
      have yk: "ys ! k = (if k < i \<or> ?n - i \<le> k then xs ! (?n - 1 - k) else xs ! k)"
        using "1.prems"(3) k by blast
      have "\<not> (k < i \<or> ?n - i \<le> k) \<Longrightarrow> ?n - 1 - k = k" using i k by auto
      then have "ys ! k = xs ! (?n - 1 - k)" using yk by (cases "k < i \<or> ?n - i \<le> k") simp_all
      then show "ys ! k = rev xs ! k" using k by (simp add: rev_nth)
    qed
    then show ?thesis using False by (subst swapLoop.simps) simp
  qed
qed

lemma swapLoop_rev: "swapLoop 0 xs = rev xs"
  by (rule swapLoop_invariant) simp_all

lemmas run_defs =
  GetIssueStatusChanges_def getIssueWithChangelog_def gatherChanges_def
  fetchAdditionalHistory_def addInitialChange_def parseCreated_def extractChanges_def
  newChange_def parseTimestamp_def parseTimestampMore_def parseOrZero_def
  server_def issue_def history_def statusItem_def exampleTime_def StatusOK_def
  swapLoop_rev Let_def word_sless_alt word_sle_eq

subsection \<open>Order of the result\<close>

text \<open>
  What the reversal achieves: when the entries were found newest first and the issue was
  not created after its earliest transition, the result is ascending.
\<close>

lemma newest_first_ascending:
  assumes "sorted (rev (map Timestamp statusChanges))"
    and "\<And>T. parseCreated tm (IssueFields.Created (Fields i)) = Some T \<Longrightarrow> statusChanges \<noteq> []
           \<Longrightarrow> T \<le> Timestamp (last statusChanges)"
  shows "sorted (map Timestamp (swapLoop 0 (addInitialChange tm i statusChanges)))"
proof (cases "addInitialChange tm i statusChanges = statusChanges")
  case True
  then show ?thesis using assms(1) by (simp add: swapLoop_rev rev_map)
next
  case False
  then obtain T where T: "parseCreated tm (IssueFields.Created (Fields i)) = Some T"
    and ne: "statusChanges \<noteq> []"
    and app: "\<exists>initialChange. Timestamp initialChange = T
               \<and> addInitialChange tm i statusChanges = statusChanges @ [initialChange]"
    by (auto simp: addInitialChange_def Let_def split: option.splits if_splits)
  then obtain initialChange where ic: "Timestamp initialChange = T"
    "addInitialChange tm i statusChanges = statusChanges @ [initialChange]" by blast
  have le: "T \<le> Timestamp (last statusChanges)" using assms(2) T ne by blast
  have hd: "rev (map Timestamp statusChanges)
              = Timestamp (last statusChanges) # rev (map Timestamp (butlast statusChanges))"
    using ne by (cases statusChanges rule: rev_cases) simp_all
  have "\<forall>t \<in> set (rev (map Timestamp statusChanges)). T \<le> t"
    using assms(1) le unfolding hd by auto
  then show ?thesis
    using assms(1) ic by (simp add: swapLoop_rev rev_map)
qed

text \<open>
  C1. The returned sequence is meant to be ascending in time. The closing loop reverses the
  order in which the entries were found; it does not compare timestamps. For a page that
  lists its two histories oldest first, the result is the creation entry, then the
  transition of January 8, then the transition of January 5: not ascending.
\<close>

theorem oldest_first_not_ascending:
  "GetIssueStatusChanges 0 oldestFirst exampleTime ''PROJ-1'' = Some (Inr oldestFirstResult)
   \<and> map Timestamp oldestFirstResult = [63839696400000000000, 63840312000000000000, 63840045600000000000]
   \<and> \<not> sorted (map Timestamp oldestFirstResult)"
  by (simp add: run_defs oldestFirst_def oldestFirstResult_def change_def)


subsection \<open>The pager\<close>

text \<open>
  Against a server whose pages are full until the declared total \<open>T\<close> is reached, the
  loop returns within \<open>\<lceil>T / p\<rceil> + 1\<close> requests, \<open>p\<close> being the size of a page.
\<close>

lemma fetchLoop_returns:
  assumes "fullPages c issueKey T p" and "sint T + int p < 2 ^ 63"
  shows "0 \<le> sint s \<Longrightarrow> sint s \<le> sint T \<Longrightarrow> sint T - sint s \<le> int fuel * int p \<Longrightarrow> 0 < fuel
    \<Longrightarrow> \<exists>r. fetchLoop fuel c tm issueKey n s allChanges = Some r"
proof (induction fuel arbitrary: n s allChanges)
  case 0
  then show ?case by simp
next
  case (Suc fuel)
  show ?case
  proof (cases "changelogReply c n issueKey s")
    case (Failed e)
    then show ?thesis by (simp add: changelogReply_def)
  next
    case NoResponse
    then show ?thesis by (simp add: changelogReply_def)
  next
    case (Response code body)
    show ?thesis
    proof (cases "code = StatusOK \<and> body \<noteq> None")
      case False
      then show ?thesis using Response by (cases body) (auto simp: changelogReply_def)
    next
      case True
      then obtain cl where cl: "changelogReply c n issueKey s = Response StatusOK (Some cl)"
        using Response by auto
      let ?l = "length (Histories cl)"
      let ?next = "s + word_of_nat ?l"
      have page: "IssueChangelog.Total cl = T" "?l \<le> p" "?l = p \<or> sint T \<le> sint s + int ?l"
        using assms(1) cl unfolding fullPages_def by blast+
      have nxt: "sint ?next = sint s + int ?l"
        using Suc.prems(1,2) page(2) assms(2) by (intro sint_add_length) simp_all
      show ?thesis
      proof (cases "T \<le>s ?next")
        case True
        then show ?thesis using cl page(1) by (simp add: changelogReply_def Let_def)
      next
        case False
        then have less: "sint s + int ?l < sint T" by (simp add: word_sle_eq nxt)
        then have full: "?l = p" using page(3) by simp
        have "sint T - sint ?next \<le> int fuel * int p"
          using Suc.prems(3) full nxt by (simp add: algebra_simps)
        moreover have "0 < fuel"
        proof (rule ccontr)
          assume "\<not> 0 < fuel"
          then have "sint T - sint ?next \<le> 0" using \<open>sint T - sint ?next \<le> int fuel * int p\<close> by simp
          then show False using less nxt by simp
        qed
        moreover have "0 \<le> sint ?next" "sint ?next \<le> sint T"
          using nxt Suc.prems(1) less by simp_all
        ultimately obtain r where
          "fetchLoop fuel c tm issueKey (Suc n) ?next
             (allChanges @ extractChanges (parseTimestampMore tm) (Histories cl)) = Some r"
          using Suc.IH by blast
        then show ?thesis using cl page(1) False by (simp add: changelogReply_def Let_def)
      qed
    qed
  qed
qed

lemma pager_returns_within_bound:
  assumes "fullPages c issueKey T p" and "0 < p" and "sint T + int p < 2 ^ 63"
    and "0 \<le> sint startAt" and "sint startAt \<le> sint T"
  shows "\<exists>r. fetchAdditionalHistory (nat ((sint T + int p - 1) div int p) + 1) c tm issueKey startAt
                 = Some r"
proof -
  let ?calls = "nat ((sint T + int p - 1) div int p) + 1"
  have T0: "0 \<le> sint T" using assms(4,5) by simp
  have "sint T \<le> ((sint T + int p - 1) div int p) * int p"
  proof -
    have "(sint T + int p - 1) mod int p \<le> int p - 1" using assms(2) by simp
    moreover have "sint T + int p - 1 = ((sint T + int p - 1) div int p) * int p + (sint T + int p - 1) mod int p"
      by simp
    ultimately show ?thesis by linarith
  qed
  moreover have "0 \<le> (sint T + int p - 1) div int p"
    using T0 assms(2) by (simp add: pos_imp_zdiv_nonneg_iff)
  ultimately have "sint T - sint startAt \<le> int ?calls * int p"
    using assms(4) by (simp add: algebra_simps)
  then show ?thesis
    unfolding fetchAdditionalHistory_def
    using assms by (intro fetchLoop_returns [where T = T and p = p]) simp_all
qed


lemma pagesOfOne_full: "fullPages pagesOfOne issueKey 3 1"
  by (auto simp: fullPages_def changelogReply_def pagesOfOne_def server_def StatusOK_def)

lemma pagesOfOne_returns:
  "\<exists>r. fetchAdditionalHistory 4 pagesOfOne tm issueKey 1 = Some r"
  using pager_returns_within_bound [OF pagesOfOne_full, of 1 tm] by simp

lemma fetchLoop_emptyPages:
  "fetchLoop fuel emptyPages tm issueKey n 100 allChanges = None"
  by (induction fuel arbitrary: n allChanges)
     (simp_all add: emptyPages_def server_def StatusOK_def extractChanges_def)

text \<open>
  C2. A page without histories below the declared total does not end the loop of
  \<open>fetchAdditionalHistory\<close>: the offset stays where it is and the same request is sent
  again. Against a server that answers every changelog request with an empty page and a
  total of 250, no number of requests is enough, neither for the pager nor for
  \<open>GetIssueStatusChanges\<close>.
\<close>

theorem empty_pages_never_return:
  "fetchAdditionalHistory fuel emptyPages tm issueKey 100 = None
   \<and> GetIssueStatusChanges fuel emptyPages tm issueKey = None"
proof
  show more: "fetchAdditionalHistory fuel emptyPages tm issueKey 100 = None"
    by (simp add: fetchAdditionalHistory_def fetchLoop_emptyPages)
  have "getIssueWithChangelog emptyPages issueKey
          = Inr (issue ''2024-01-01T09:00:00Z''
              \<lparr>StartAt = 0, MaxResults = 100, Total = 250,
               Histories = [history ''2024-01-08T12:00:00Z'' ''In Progress'' ''Done'']\<rparr>)"
    by (simp add: getIssueWithChangelog_def emptyPages_def server_def StatusOK_def)
  then show "GetIssueStatusChanges fuel emptyPages tm issueKey = None"
    using more by (simp add: GetIssueStatusChanges_def gatherChanges_def issue_def)
qed

subsection \<open>Failure of a continuation page\<close>

text \<open>
  Once the issue itself has arrived the call returns no error; and whenever the pager ends
  with an error, only the changes of the embedded page are kept.
\<close>

lemma continuation_error_drops_pages:
  assumes "Changelog i = Some cl"
    and "fetchAdditionalHistory fuel c tm issueKey (IssueChangelog.MaxResults cl) = Some (additionalChanges, Some e)"
  shows "gatherChanges fuel c tm issueKey i = Some (extractChanges (parseTimestamp tm) (Histories cl))"
  using assms by (simp add: gatherChanges_def Let_def)

lemma only_first_fetch_fails:
  assumes "getIssueWithChangelog c issueKey = Inr i"
  shows "GetIssueStatusChanges fuel c tm issueKey \<noteq> Some (Inl e)"
  using assms by (simp add: GetIssueStatusChanges_def split: option.split)

text \<open>
  C3. When a continuation page fails, \<open>fetchAdditionalHistory\<close> hands back the changes of
  the pages before it together with the error, and \<open>GetIssueStatusChanges\<close> appends them
  only when there is no error. With a first continuation page that arrives and a second
  one answered by status 500, the pager returns the transition of the first continuation
  page, and the result of the call holds the embedded page only: that transition is lost.
\<close>

theorem partial_pages_dropped:
  "fetchAdditionalHistory 2 secondPageFails exampleTime ''PROJ-1'' 1
     = Some ([change 63840312000000000000 ''In Progress'' ''Review''], Some (UnexpectedStatus 500))
   \<and> GetIssueStatusChanges 2 secondPageFails exampleTime ''PROJ-1''
     = Some (Inr [\<lparr>Timestamp = 63839696400000000000, StatusChange.Author = ''bob'', FromStatus = '''',
                     ToStatus = ''Review'', AuthorEmail = '''', AuthorDisplayName = ''bob''\<rparr>,
                  change 63840497400000000000 ''Review'' ''Done''])"
  by (simp add: run_defs secondPageFails_def change_def numeral_2_eq_2)

subsection \<open>The initial status\<close>











subsection \<open>Timestamps\<close>

text \<open>Both paths try the two layouts in order; they differ when both fail.\<close>

lemma parse_failure_fallbacks:
  assumes "parseRFC3339 tm created = None" and "parseMillis tm created = None"
  shows "parseTimestamp tm created = now tm \<and> parseTimestampMore tm created = 0"
  using assms by (simp add: parseTimestamp_def parseTimestampMore_def parseOrZero_def)

lemma parse_layouts_in_order:
  "parseRFC3339 tm created = Some t \<Longrightarrow> parseTimestamp tm created = t"
  "parseRFC3339 tm created = None \<Longrightarrow> parseMillis tm created = Some t
     \<Longrightarrow> parseTimestamp tm created = t"
  "parseRFC3339 tm created = Some t \<Longrightarrow> t \<noteq> 0 \<Longrightarrow> parseTimestampMore tm created = t"
  "parseRFC3339 tm created = None \<Longrightarrow> parseMillis tm created = Some t
     \<Longrightarrow> parseTimestampMore tm created = t"
  by (simp_all add: parseTimestamp_def parseTimestampMore_def parseOrZero_def)

text \<open>
  C6. A timestamp in neither layout is replaced by the reading of the clock on the embedded
  page, but by the zero \<^verbatim>\<open>Time\<close> on a continuation page: there the errors of both parses are
  dropped and nothing is put in their place. The transition of the second page below comes
  back with timestamp 0, ahead of the transition of January 8. No error is returned.
\<close>

theorem bad_date_on_second_page_is_zero:
  "parseTimestamp exampleTime ''05/Jan/24 10:00 AM'' = now exampleTime
   \<and> parseTimestampMore exampleTime ''05/Jan/24 10:00 AM'' = 0
   \<and> GetIssueStatusChanges 1 badDateOnSecondPage exampleTime ''PROJ-1''
     = Some (Inr [\<lparr>Timestamp = 63839696400000000000, StatusChange.Author = ''bob'', FromStatus = '''',
                     ToStatus = ''To Do'', AuthorEmail = '''', AuthorDisplayName = ''bob''\<rparr>,
                  change 0 ''To Do'' ''In Progress'',
                  change 63840312000000000000 ''In Progress'' ''Done''])"
  by (simp add: run_defs badDateOnSecondPage_def change_def)

text \<open>The timeline that starts at the zero \<^verbatim>\<open>Time\<close> is one that the library returns.\<close>

lemma zero_time_timeline_arises:
  "GetIssueStatusChanges 1 badDateNoCreation exampleTime ''PROJ-1'' = Some (Inr fromZeroTime)"
  by (simp add: run_defs badDateNoCreation_def fromZeroTime_def change_def)

end
